theory Spec2Isabelle
  imports Complex_Main
begin

section \<open>Data model\<close>

text \<open>
  The section tree of \<^verbatim>\<open>CVEditor.tsx\<close>, \<^verbatim>\<open>CVSection.tsx\<close> and \<^verbatim>\<open>CVSidebar.tsx\<close>.
  \<^verbatim>\<open>interface Section { id; type; content; styles; children }\<close> is declared twice: in
  \<^verbatim>\<open>CVEditor.tsx\<close> with three style fields (backgroundColor, padding, margin) and in
  \<^verbatim>\<open>CVSection.tsx\<close> with six (the three border fields added). At run time both describe
  the same objects, so the border fields are optional here: \<open>None\<close> is a key that the
  object does not have.
\<close>

datatype SectionType = Container | Text | Image

record Styles =
  backgroundColor :: string
  padding :: string
  margin :: string
  borderStyle :: "string option"
  borderWidth :: "string option"
  borderColor :: "string option"

datatype Section =
  Section (section_id: string) (section_type: SectionType) (content: string)
    (styles: Styles) (children: "Section list")

text \<open>\<^verbatim>\<open>interface CVData { sections: Section[] }\<close>\<close>

record CVData =
  sections :: "Section list"

text \<open>
  \<^verbatim>\<open>Partial<Section>\<close>, the second argument of \<^verbatim>\<open>updateSection\<close>: every key of
  \<^verbatim>\<open>Section\<close> may be present or absent, and a key that is present holds a value of the
  key's type. The type also admits a key that is present with the value \<^verbatim>\<open>undefined\<close>; the
  spread would copy it and give an object that is no \<^verbatim>\<open>Section\<close>. No call in the repository
  builds one (the three handlers of \<^verbatim>\<open>CVSection\<close> below pass strings and literals), and the
  record leaves it out.
\<close>

record Partial_Section =
  id_upd :: "string option"
  type_upd :: "SectionType option"
  content_upd :: "string option"
  styles_upd :: "Styles option"
  children_upd :: "Section list option"

text \<open>The layout hint of \<^verbatim>\<open>addSection\<close>; the function never reads it.\<close>

datatype Direction = Horizontal | Vertical

text \<open>\<^verbatim>\<open>interface CV { id; name; lastModified }\<close> of the registry in \<^verbatim>\<open>CVSidebar.tsx\<close>;
  the date is kept as the text that \<^verbatim>\<open>JSON.stringify\<close> writes for it.\<close>

record CV =
  cv_id :: string
  cv_name :: string
  lastModified :: string

subsection \<open>JavaScript values and their JSON text\<close>

text \<open>
  What \<^verbatim>\<open>JSON.parse\<close> can return. An object is its list of keys and values, in the
  order of insertion, which is the order \<^verbatim>\<open>JSON.stringify\<close> writes.
\<close>

datatype json =
  JNull
  | JBool bool
  | JNumber real
  | JString string
  | JArray "json list"
  | JObject "(string \<times> json) list"


fun json_get :: "json \<Rightarrow> string \<Rightarrow> json option" where
  "json_get (JObject kvs) k = map_of kvs k"
| "json_get _ k = None"

text \<open>
  The JavaScript value of a typed section, as the object literals of the source build
  it: keys in the order \<^verbatim>\<open>id, type, content, styles, children\<close>, and in \<^verbatim>\<open>styles\<close> the
  keys that are present, in the order of the literals of \<^verbatim>\<open>createNewCV\<close>,
  \<^verbatim>\<open>addSection\<close> and \<^verbatim>\<open>handleSaveStyles\<close>.
\<close>

fun SectionType_to_json :: "SectionType \<Rightarrow> json" where
  "SectionType_to_json Container = JString ''container''"
| "SectionType_to_json Text = JString ''text''"
| "SectionType_to_json Image = JString ''image''"

fun optional_key :: "string \<Rightarrow> string option \<Rightarrow> (string \<times> json) list" where
  "optional_key k None = []"
| "optional_key k (Some v) = [(k, JString v)]"

definition Styles_to_json :: "Styles \<Rightarrow> json" where
  "Styles_to_json st =
     JObject ([(''backgroundColor'', JString (backgroundColor st)),
               (''padding'', JString (padding st)),
               (''margin'', JString (margin st))]
              @ optional_key ''borderStyle'' (borderStyle st)
              @ optional_key ''borderWidth'' (borderWidth st)
              @ optional_key ''borderColor'' (borderColor st))"

fun Section_to_json :: "Section \<Rightarrow> json" where
  "Section_to_json (Section i t c st ch) =
     JObject [(''id'', JString i),
              (''type'', SectionType_to_json t),
              (''content'', JString c),
              (''styles'', Styles_to_json st),
              (''children'', JArray (map Section_to_json ch))]"

definition CVData_to_json :: "CVData \<Rightarrow> json" where
  "CVData_to_json d = JObject [(''sections'', JArray (map Section_to_json (sections d)))]"

definition CV_to_json :: "CV \<Rightarrow> json" where
  "CV_to_json cv =
     JObject [(''id'', JString (cv_id cv)),
              (''name'', JString (cv_name cv)),
              (''lastModified'', JString (lastModified cv))]"

subsection \<open>\<^verbatim>\<open>JSON.stringify\<close>\<close>

text \<open>
  The text that \<^verbatim>\<open>JSON.stringify(v)\<close> writes, without indentation. A string is quoted
  as the language's \<^verbatim>\<open>QuoteJSONString\<close> does: the quote and the backslash are escaped,
  the control characters below \<open>0x20\<close> are written with their short escapes or as
  \<^verbatim>\<open>\u00XX\<close>, every other character stands for itself. The text of a number is the
  platform's, taken as the argument \<open>num\<close>; no document holds a number.
\<close>

definition hex_digit :: "nat \<Rightarrow> char" where
  "hex_digit n = (if n < 10 then char_of (48 + n) else char_of (87 + n))"

definition quote_char :: "char \<Rightarrow> string" where
  "quote_char c =
     (if c = CHR 0x08 then [CHR 0x5C, CHR ''b'']
      else if c = CHR 0x09 then [CHR 0x5C, CHR ''t'']
      else if c = CHR 0x0A then [CHR 0x5C, CHR ''n'']
      else if c = CHR 0x0C then [CHR 0x5C, CHR ''f'']
      else if c = CHR 0x0D then [CHR 0x5C, CHR ''r'']
      else if c = CHR 0x22 then [CHR 0x5C, CHR 0x22]
      else if c = CHR 0x5C then [CHR 0x5C, CHR 0x5C]
      else if (of_char c :: nat) < 32 then
        [CHR 0x5C, CHR ''u'', CHR ''0'', CHR ''0'',
         hex_digit (of_char c div 16), hex_digit (of_char c mod 16)]
      else [c])"

definition QuoteJSONString :: "string \<Rightarrow> string" where
  "QuoteJSONString s = CHR 0x22 # concat (map quote_char s) @ [CHR 0x22]"

fun join_commas :: "string list \<Rightarrow> string" where
  "join_commas [] = []"
| "join_commas [x] = x"
| "join_commas (x # y # zs) = x @ CHR '','' # join_commas (y # zs)"

fun JSON_stringify :: "(real \<Rightarrow> string) \<Rightarrow> json \<Rightarrow> string" where
  "JSON_stringify num JNull = ''null''"
| "JSON_stringify num (JBool b) = (if b then ''true'' else ''false'')"
| "JSON_stringify num (JNumber r) = num r"
| "JSON_stringify num (JString s) = QuoteJSONString s"
| "JSON_stringify num (JArray vs) =
     CHR ''['' # join_commas (map (JSON_stringify num) vs) @ [CHR '']'']"
| "JSON_stringify num (JObject kvs) =
     CHR ''{'' # join_commas (map (\<lambda>(k, v). QuoteJSONString k @ CHR '':'' # JSON_stringify num v) kvs)
       @ [CHR ''}'']"

subsection \<open>\<^verbatim>\<open>JSON.parse\<close>\<close>

text \<open>
  A reader of the JSON grammar: white space between tokens, the literals \<^verbatim>\<open>null\<close>,
  \<^verbatim>\<open>true\<close> and \<^verbatim>\<open>false\<close>, numbers, strings with their escapes, arrays and objects;
  \<open>None\<close> is the \<^verbatim>\<open>SyntaxError\<close>. A string of the model holds characters below 256, so
  an escape \<^verbatim>\<open>\uXXXX\<close> for a larger code unit is outside it and is refused. The value of
  a number token is the platform's, taken as the argument \<open>num\<close>.
\<close>

definition is_ws :: "char \<Rightarrow> bool" where
  "is_ws c = (c = CHR 0x20 \<or> c = CHR 0x09 \<or> c = CHR 0x0A \<or> c = CHR 0x0D)"

fun skip_ws :: "string \<Rightarrow> string" where
  "skip_ws [] = []"
| "skip_ws (c # cs) = (if is_ws c then skip_ws cs else c # cs)"

definition is_digit :: "char \<Rightarrow> bool" where
  "is_digit c = (48 \<le> (of_char c :: nat) \<and> (of_char c :: nat) \<le> 57)"

definition hex_value :: "char \<Rightarrow> nat option" where
  "hex_value c =
     (let n = (of_char c :: nat) in
      if 48 \<le> n \<and> n \<le> 57 then Some (n - 48)
      else if 97 \<le> n \<and> n \<le> 102 then Some (n - 87)
      else if 65 \<le> n \<and> n \<le> 70 then Some (n - 55)
      else None)"

definition unescape :: "char \<Rightarrow> char option" where
  "unescape e =
     (if e = CHR 0x22 then Some (CHR 0x22)
      else if e = CHR 0x5C then Some (CHR 0x5C)
      else if e = CHR ''/'' then Some (CHR ''/'')
      else if e = CHR ''b'' then Some (CHR 0x08)
      else if e = CHR ''f'' then Some (CHR 0x0C)
      else if e = CHR ''n'' then Some (CHR 0x0A)
      else if e = CHR ''r'' then Some (CHR 0x0D)
      else if e = CHR ''t'' then Some (CHR 0x09)
      else None)"

definition code_unit :: "char \<Rightarrow> char \<Rightarrow> char \<Rightarrow> char \<Rightarrow> char option" where
  "code_unit h1 h2 h3 h4 =
     (case (hex_value h1, hex_value h2, hex_value h3, hex_value h4) of
        (Some a, Some b, Some c, Some d) \<Rightarrow>
          if ((a * 16 + b) * 16 + c) * 16 + d < 256
          then Some (char_of (((a * 16 + b) * 16 + c) * 16 + d))
          else None
      | _ \<Rightarrow> None)"

fun parse_chars :: "string \<Rightarrow> (string \<times> string) option" where
  "parse_chars [] = None"
| "parse_chars (c # cs) =
     (if c = CHR 0x22 then Some ([], cs)
      else if c = CHR 0x5C then
        (case cs of
           [] \<Rightarrow> None
         | e # cs1 \<Rightarrow>
             if e = CHR ''u'' then
               (case cs1 of
                  h1 # h2 # h3 # h4 # cs2 \<Rightarrow>
                    (case code_unit h1 h2 h3 h4 of
                       None \<Rightarrow> None
                     | Some x \<Rightarrow> map_option (\<lambda>(s, r). (x # s, r)) (parse_chars cs2))
                | _ \<Rightarrow> None)
             else
               (case unescape e of
                  None \<Rightarrow> None
                | Some x \<Rightarrow> map_option (\<lambda>(s, r). (x # s, r)) (parse_chars cs1)))
      else if (of_char c :: nat) < 32 then None
      else map_option (\<lambda>(s, r). (c # s, r)) (parse_chars cs))"








text \<open>
  The object that the members of a JSON text build: a key that comes again replaces the
  value and keeps its place, and the keys that are array indices come first, in
  ascending order, as the properties of a JavaScript object are enumerated.
\<close>

definition decimal_value :: "string \<Rightarrow> int" where
  "decimal_value k = foldl (\<lambda>n c. 10 * n + (of_char c - 48)) 0 k"

definition is_array_index :: "string \<Rightarrow> bool" where
  "is_array_index k =
     (k \<noteq> [] \<and> list_all is_digit k \<and> (k = ''0'' \<or> hd k \<noteq> CHR ''0'') \<and>
      decimal_value k < 4294967295)"





section \<open>The tree operations of \<^verbatim>\<open>CVEditor.tsx\<close>\<close>

text \<open>The spread \<^verbatim>\<open>{ ...section, ...updates }\<close>: a key of \<open>updates\<close> that is present wins.\<close>

definition spread :: "Section \<Rightarrow> Partial_Section \<Rightarrow> Section" where
  "spread section updates =
     Section
       (case id_upd updates of Some v \<Rightarrow> v | None \<Rightarrow> section_id section)
       (case type_upd updates of Some v \<Rightarrow> v | None \<Rightarrow> section_type section)
       (case content_upd updates of Some v \<Rightarrow> v | None \<Rightarrow> content section)
       (case styles_upd updates of Some v \<Rightarrow> v | None \<Rightarrow> styles section)
       (case children_upd updates of Some v \<Rightarrow> v | None \<Rightarrow> children section)"

text \<open>The spread \<^verbatim>\<open>{ ...section, children: cs }\<close>.\<close>

definition with_children :: "Section \<Rightarrow> Section list \<Rightarrow> Section" where
  "with_children section cs =
     Section (section_id section) (section_type section) (content section) (styles section) cs"

text \<open>
  \<^verbatim>\<open>updateSectionRecursive\<close> (lines 51-64): \<^verbatim>\<open>sections.map\<close> over the forest; a
  section whose id matches is replaced by the spread and not descended into, another
  one with children is rebuilt around its rewritten children, a leaf is returned as it is.
\<close>

function updateSectionRecursive :: "string \<Rightarrow> Partial_Section \<Rightarrow> Section list \<Rightarrow> Section list" where
  "updateSectionRecursive sectionId updates sects =
     map (\<lambda>section.
            if section_id section = sectionId then spread section updates
            else if length (children section) > 0 then
              with_children section (updateSectionRecursive sectionId updates (children section))
            else section)
         sects"
  by pat_completeness auto
termination
proof (relation "measure (\<lambda>(sectionId, updates, sects). size_list size sects)")
  fix sectionId :: string and updates :: Partial_Section and sects :: "Section list" and x
  assume "x \<in> set sects"
  moreover have "size_list size (children x) < size x"
    by (cases x) simp
  ultimately have "size_list size (children x) < size_list size sects"
    by (rule size_list_estimation)
  then show "((sectionId, updates, children x), (sectionId, updates, sects))
      \<in> measure (\<lambda>(sectionId, updates, sects). size_list size sects)"
    by simp
qed simp

declare updateSectionRecursive.simps [simp del]

text \<open>\<^verbatim>\<open>newSection\<close> (lines 76-86), with the result of \<^verbatim>\<open>crypto.randomUUID()\<close> passed in.\<close>

definition newSection :: "string \<Rightarrow> Section" where
  "newSection uuid =
     Section uuid Container ''''
       \<lparr>backgroundColor = ''transparent'', padding = ''10px'', margin = ''0px'',
        borderStyle = None, borderWidth = None, borderColor = None\<rparr>
       []"

text \<open>
  \<^verbatim>\<open>addSectionRecursive\<close> (lines 88-104), with the section it closes over as an
  argument: a section whose id matches gets \<^verbatim>\<open>[...section.children, newSection]\<close>.
\<close>

function addSectionRecursive :: "string \<Rightarrow> Section \<Rightarrow> Section list \<Rightarrow> Section list" where
  "addSectionRecursive parentId new sects =
     map (\<lambda>section.
            if section_id section = parentId then
              with_children section (children section @ [new])
            else if length (children section) > 0 then
              with_children section (addSectionRecursive parentId new (children section))
            else section)
         sects"
  by pat_completeness auto
termination
proof (relation "measure (\<lambda>(parentId, new, sects). size_list size sects)")
  fix parentId :: string and new :: Section and sects :: "Section list" and x
  assume "x \<in> set sects"
  moreover have "size_list size (children x) < size x"
    by (cases x) simp
  ultimately have "size_list size (children x) < size_list size sects"
    by (rule size_list_estimation)
  then show "((parentId, new, children x), (parentId, new, sects))
      \<in> measure (\<lambda>(parentId, new, sects). size_list size sects)"
    by simp
qed simp

declare addSectionRecursive.simps [simp del]

section \<open>The editor and the store\<close>

text \<open>
  The state that the components share: the browser's \<^verbatim>\<open>localStorage\<close> (keys and values
  are strings), the registry \<^verbatim>\<open>cvs\<close> of \<^verbatim>\<open>CVSidebar\<close>, \<^verbatim>\<open>selectedCVId\<close> of the page
  and \<^verbatim>\<open>cvData\<close> of \<^verbatim>\<open>CVEditor\<close> (\<open>None\<close> is \<^verbatim>\<open>null\<close>).
  \<^verbatim>\<open>JSON.stringify\<close> and \<^verbatim>\<open>JSON.parse\<close> belong to the platform, not to the repository:
  the operations take them as the arguments \<open>stringify\<close> and \<open>parse\<close>, and \<open>parse\<close>
  returns \<open>None\<close> where \<^verbatim>\<open>JSON.parse\<close> throws. A write to the store is taken to
  succeed: the source has no handler for a full or disabled store.
\<close>

record State =
  localStorage :: "string \<rightharpoonup> string"
  cvs :: "CV list"
  selectedCVId :: "string option"
  cvData :: "CVData option"

text \<open>The test \<^verbatim>\<open>if (s)\<close> on a value of type \<^verbatim>\<open>string | null\<close>: the empty string is falsy too.\<close>

fun truthy :: "string option \<Rightarrow> bool" where
  "truthy None = False"
| "truthy (Some s) = (s \<noteq> [])"

text \<open>\<^verbatim>\<open>saveCVData\<close> (lines 41-46).\<close>

definition saveCVData :: "(json \<Rightarrow> string) \<Rightarrow> CVData \<Rightarrow> State \<Rightarrow> State" where
  "saveCVData stringify data st =
     (case selectedCVId st of
        None \<Rightarrow> st
      | Some cid \<Rightarrow>
          if truthy (Some cid) then
            st\<lparr>localStorage := (localStorage st)(''cv_'' @ cid \<mapsto> stringify (CVData_to_json data)),
               cvData := Some data\<rparr>
          else st)"

text \<open>\<^verbatim>\<open>updateSection\<close> (lines 48-71).\<close>

definition updateSection :: "(json \<Rightarrow> string) \<Rightarrow> string \<Rightarrow> Partial_Section \<Rightarrow> State \<Rightarrow> State" where
  "updateSection stringify sectionId updates st =
     (case cvData st of
        None \<Rightarrow> st
      | Some d \<Rightarrow>
          saveCVData stringify
            (d\<lparr>sections := updateSectionRecursive sectionId updates (sections d)\<rparr>) st)"

text \<open>\<^verbatim>\<open>addSection\<close> (lines 73-111); \<open>uuid\<close> is what \<^verbatim>\<open>crypto.randomUUID()\<close> returns.\<close>

definition addSection :: "(json \<Rightarrow> string) \<Rightarrow> string \<Rightarrow> string \<Rightarrow> Direction \<Rightarrow> State \<Rightarrow> State" where
  "addSection stringify uuid parentId direction st =
     (case cvData st of
        None \<Rightarrow> st
      | Some d \<Rightarrow>
          saveCVData stringify
            (d\<lparr>sections := addSectionRecursive parentId (newSection uuid) (sections d)\<rparr>) st)"

text \<open>
  The load effect of \<^verbatim>\<open>CVEditor\<close> (lines 30-39). Its outcome is the call of
  \<^verbatim>\<open>setCVData\<close> it makes, with the value as \<^verbatim>\<open>JSON.parse\<close> returned it (the source
  passes it on unchecked); no call at all, which leaves \<^verbatim>\<open>cvData\<close> as it was; or the
  \<^verbatim>\<open>SyntaxError\<close> that \<^verbatim>\<open>JSON.parse\<close> throws and nothing catches.
\<close>

datatype load_outcome = SetCVData json | NoCall | SyntaxError

definition load_effect :: "(string \<Rightarrow> json option) \<Rightarrow> State \<Rightarrow> load_outcome" where
  "load_effect parse st =
     (case selectedCVId st of
        None \<Rightarrow> SetCVData JNull
      | Some cid \<Rightarrow>
          if truthy (Some cid) then
            (case localStorage st (''cv_'' @ cid) of
               None \<Rightarrow> NoCall
             | Some savedCV \<Rightarrow>
                 if truthy (Some savedCV) then
                   (case parse savedCV of
                      None \<Rightarrow> SyntaxError
                    | Some v \<Rightarrow> SetCVData v)
                 else NoCall)
          else SetCVData JNull)"

subsection \<open>\<^verbatim>\<open>CVSidebar.tsx\<close>: registering a new CV\<close>

text \<open>The decimal text of a number, for the template \<^verbatim>\<open>`CV ${cvs.length + 1}`\<close>.\<close>

fun digits :: "nat \<Rightarrow> string" where
  "digits n =
     (if n < 10 then [char_of (48 + n)]
      else digits (n div 10) @ [char_of (48 + n mod 10)])"

text \<open>\<^verbatim>\<open>saveCVs\<close> (lines 38-41).\<close>

definition saveCVs :: "(json \<Rightarrow> string) \<Rightarrow> CV list \<Rightarrow> State \<Rightarrow> State" where
  "saveCVs stringify newCVs st =
     st\<lparr>localStorage := (localStorage st)(''cvs'' \<mapsto> stringify (JArray (map CV_to_json newCVs))),
        cvs := newCVs\<rparr>"

text \<open>\<^verbatim>\<open>initialCVData\<close> (lines 55-67), with the root's \<^verbatim>\<open>crypto.randomUUID()\<close> passed in.\<close>

definition initialCVData :: "string \<Rightarrow> CVData" where
  "initialCVData uuid =
     \<lparr>sections =
        [Section uuid Container ''''
           \<lparr>backgroundColor = ''transparent'', padding = ''20px'', margin = ''0px'',
            borderStyle = None, borderWidth = None, borderColor = None\<rparr>
           []]\<rparr>"

text \<open>
  \<^verbatim>\<open>createNewCV\<close> (lines 43-74): \<open>cvUuid\<close> and \<open>sectionUuid\<close> are the two results of
  \<^verbatim>\<open>crypto.randomUUID()\<close>, \<open>now\<close> the text of \<^verbatim>\<open>new Date()\<close>; \<^verbatim>\<open>onSelectCV\<close> is the
  page's \<^verbatim>\<open>setSelectedCVId\<close>. The toast is not part of the state.
\<close>

definition createNewCV :: "(json \<Rightarrow> string) \<Rightarrow> string \<Rightarrow> string \<Rightarrow> string \<Rightarrow> State \<Rightarrow> State" where
  "createNewCV stringify cvUuid sectionUuid now st =
     (let newCV = \<lparr>cv_id = cvUuid, cv_name = ''CV '' @ digits (length (cvs st) + 1),
                   lastModified = now\<rparr>;
          updatedCVs = cvs st @ [newCV];
          st1 = saveCVs stringify updatedCVs st;
          st2 = st1\<lparr>selectedCVId := Some (cv_id newCV)\<rparr>
      in st2\<lparr>localStorage := (localStorage st2)
                (''cv_'' @ cv_id newCV \<mapsto> stringify (CVData_to_json (initialCVData sectionUuid)))\<rparr>)"

subsection \<open>\<^verbatim>\<open>CVSection.tsx\<close>: the updates it sends and the border it draws\<close>

text \<open>\<^verbatim>\<open>a || b\<close> for \<open>a\<close> a string that may be missing: the empty string is falsy.\<close>

definition or_else :: "string option \<Rightarrow> string \<Rightarrow> string" where
  "or_else a b = (if truthy a then (case a of Some s \<Rightarrow> s | None \<Rightarrow> b) else b)"

text \<open>
  The \<^verbatim>\<open>border\<close> of the rendered \<^verbatim>\<open>div\<close> (line 148) on the first render of a section,
  when the three pieces of state still hold their initial values (lines 42-44).
\<close>

definition border_css :: "Section \<Rightarrow> string" where
  "border_css section =
     (let bs = or_else (borderStyle (styles section)) ''none'';
          bw = or_else (borderWidth (styles section)) ''1px'';
          bc = or_else (borderColor (styles section)) ''#000000''
      in if bs = ''none'' then ''none'' else bw @ '' '' @ bs @ '' '' @ bc)"

text \<open>The argument of \<^verbatim>\<open>onUpdate\<close> in \<^verbatim>\<open>handleSaveText\<close> (lines 56-62).\<close>

definition handleSaveText :: "string \<Rightarrow> Partial_Section" where
  "handleSaveText textContent =
     \<lparr>id_upd = None, type_upd = Some Text, content_upd = Some textContent,
      styles_upd = None, children_upd = None\<rparr>"

text \<open>The argument of \<^verbatim>\<open>onUpdate\<close> in \<^verbatim>\<open>handleSaveStyles\<close> (lines 74-86).\<close>

definition handleSaveStyles :: "string \<Rightarrow> string \<Rightarrow> string \<Rightarrow> string \<Rightarrow> string \<Rightarrow> string \<Rightarrow> Partial_Section" where
  "handleSaveStyles bg pad mar bs bw bc =
     \<lparr>id_upd = None, type_upd = None, content_upd = None,
      styles_upd = Some \<lparr>backgroundColor = bg, padding = pad, margin = mar,
                         borderStyle = Some bs, borderWidth = Some bw, borderColor = Some bc\<rparr>,
      children_upd = None\<rparr>"

text \<open>The argument of \<^verbatim>\<open>onUpdate\<close> in \<^verbatim>\<open>handleFileChange\<close> (lines 92-105).\<close>

definition handleFileChange :: "string \<Rightarrow> Partial_Section" where
  "handleFileChange imageUrl =
     \<lparr>id_upd = None, type_upd = Some Image, content_upd = Some imageUrl,
      styles_upd = None, children_upd = None\<rparr>"

subsection \<open>The events that reach the editor\<close>




section \<open>Notions the properties are stated with\<close>

text \<open>The identifiers of a forest, depth first: a section before its children, in order.\<close>

function ids :: "Section list \<Rightarrow> string list" where
  "ids [] = []"
| "ids (Section i t c st ch # rest) = i # ids ch @ ids rest"
  by pat_completeness auto
termination
  by (relation "measure (size_list size)") auto

text \<open>
  The identifiers of a forest outside the subtrees below the sections with identifier
  \<open>a\<close>: depth first as \<open>ids\<close>, but without the descendants of such a section.
\<close>

function ids_outside :: "string \<Rightarrow> Section list \<Rightarrow> string list" where
  "ids_outside a [] = []"
| "ids_outside a (Section i t c st ch # rest) =
     i # (if i = a then [] else ids_outside a ch) @ ids_outside a rest"
  by pat_completeness auto
termination
  by (relation "measure (\<lambda>(a, T). size_list size T)") auto

text \<open>
  The sections with identifier \<open>a\<close> that the two rewrites reach, depth first: both stop
  at such a section and do not look below it. \<open>cut_below a T\<close> is the forest \<open>T\<close> down to
  these sections, which are left without children: all that the forest holds outside of
  what lies below them.
\<close>

function reached :: "string \<Rightarrow> Section list \<Rightarrow> Section list" where
  "reached a [] = []"
| "reached a (Section i t c st ch # rest) =
     (if i = a then [Section i t c st ch] else reached a ch) @ reached a rest"
  by pat_completeness auto
termination
  by (relation "measure (\<lambda>(a, T). size_list size T)") auto

function cut_below :: "string \<Rightarrow> Section list \<Rightarrow> Section list" where
  "cut_below a [] = []"
| "cut_below a (Section i t c st ch # rest) =
     Section i t c st (if i = a then [] else cut_below a ch) # cut_below a rest"
  by pat_completeness auto
termination
  by (relation "measure (\<lambda>(a, T). size_list size T)") auto

text \<open>
  \<open>ids_kept T T'\<close>: every node of the forest \<open>T\<close> has, at the same place of the forest
  \<open>T'\<close>, a node with the same identifier; \<open>T'\<close> may have further nodes after the last
  root and after the last child of a node.
\<close>

function ids_kept :: "Section list \<Rightarrow> Section list \<Rightarrow> bool" where
  "ids_kept [] T' = True"
| "ids_kept (Section i t c st ch # rest) [] = False"
| "ids_kept (Section i t c st ch # rest) (Section i' t' c' st' ch' # rest') =
     (i' = i \<and> ids_kept ch ch' \<and> ids_kept rest rest')"
  by pat_completeness auto
termination
  by (relation "measure (\<lambda>(T, T'). size_list size T)") auto

text \<open>
  \<open>one_node_replaced R T T'\<close>: the forest \<open>T'\<close> is the forest \<open>T\<close> but for one node, at any
  depth, in whose place \<open>T'\<close> has a node related to it by \<open>R\<close>. Every section that is not
  an ancestor of that node is the same in both; an ancestor keeps its id, type, content
  and styles, and its children but for the one that holds the node.
\<close>

inductive one_node_replaced :: "(Section \<Rightarrow> Section \<Rightarrow> bool) \<Rightarrow> Section list \<Rightarrow> Section list \<Rightarrow> bool"
  for R :: "Section \<Rightarrow> Section \<Rightarrow> bool" where
  here: "R n n' \<Longrightarrow> one_node_replaced R (n # rest) (n' # rest)"
| below: "one_node_replaced R ch ch' \<Longrightarrow>
          one_node_replaced R (Section i t c st ch # rest) (Section i t c st ch' # rest)"
| later: "one_node_replaced R rest rest' \<Longrightarrow> one_node_replaced R (n # rest) (n # rest')"

code_pred one_node_replaced .











text \<open>
  The values on which the round trip through JSON text is proved: no number, and in
  every object no key twice and no key that is an array index. Every value that the
  source builds for a document is one.
\<close>

fun plain :: "json \<Rightarrow> bool" where
  "plain JNull = True"
| "plain (JBool b) = True"
| "plain (JNumber r) = False"
| "plain (JString s) = True"
| "plain (JArray vs) = list_all plain vs"
| "plain (JObject kvs) =
     (distinct (map fst kvs) \<and> list_all (\<lambda>(k, v). \<not> is_array_index k \<and> plain v) kvs)"

text \<open>
  A run of \<^verbatim>\<open>addSection\<close> calls, each with the identifier minted for it, and the
  condition that each minted identifier is new to the document at the time of its call.
\<close>

definition document_ids :: "State \<Rightarrow> string list" where
  "document_ids st = (case cvData st of None \<Rightarrow> [] | Some d \<Rightarrow> ids (sections d))"

fun addSections :: "(json \<Rightarrow> string) \<Rightarrow> (string \<times> string \<times> Direction) list \<Rightarrow> State \<Rightarrow> State" where
  "addSections stringify [] st = st"
| "addSections stringify ((uuid, parentId, direction) # calls) st =
     addSections stringify calls (addSection stringify uuid parentId direction st)"

fun minted_fresh :: "(json \<Rightarrow> string) \<Rightarrow> (string \<times> string \<times> Direction) list \<Rightarrow> State \<Rightarrow> bool" where
  "minted_fresh stringify [] st = True"
| "minted_fresh stringify ((uuid, parentId, direction) # calls) st =
     (uuid \<notin> set (document_ids st) \<and>
      minted_fresh stringify calls (addSection stringify uuid parentId direction st))"

section \<open>How the two rewrites compute\<close>

text \<open>
  The defining equations unfold without end under the simplifier, so they are replaced by
  their instances on the empty forest and on a forest with a first section.
\<close>

lemma updateSectionRecursive_Nil [simp]: "updateSectionRecursive a u [] = []"
  by (simp add: updateSectionRecursive.simps)

lemma updateSectionRecursive_Cons [simp]:
  "updateSectionRecursive a u (Section i t c st ch # rest) =
     (if i = a then spread (Section i t c st ch) u
      else if ch \<noteq> [] then Section i t c st (updateSectionRecursive a u ch)
      else Section i t c st ch) # updateSectionRecursive a u rest"
  by (simp add: updateSectionRecursive.simps [of a u "Section i t c st ch # rest"]
      updateSectionRecursive.simps [of a u rest] with_children_def)

lemma addSectionRecursive_Nil [simp]: "addSectionRecursive p n [] = []"
  by (simp add: addSectionRecursive.simps)

lemma addSectionRecursive_Cons [simp]:
  "addSectionRecursive p n (Section i t c st ch # rest) =
     (if i = p then Section i t c st (ch @ [n])
      else if ch \<noteq> [] then Section i t c st (addSectionRecursive p n ch)
      else Section i t c st ch) # addSectionRecursive p n rest"
  by (simp add: addSectionRecursive.simps [of p n "Section i t c st ch # rest"]
      addSectionRecursive.simps [of p n rest] with_children_def)

lemma ids_append [simp]: "ids (xs @ ys) = ids xs @ ids ys"
  by (induction xs rule: ids.induct) simp_all

lemma update_absent: "a \<notin> set (ids T) \<Longrightarrow> updateSectionRecursive a u T = T"
  by (induction T rule: ids.induct) auto

lemma add_absent: "p \<notin> set (ids T) \<Longrightarrow> addSectionRecursive p n T = T"
  by (induction T rule: ids.induct) auto

lemma update_replaces_one:
  "distinct (ids T) \<Longrightarrow> a \<in> set (ids T) \<Longrightarrow>
   one_node_replaced (\<lambda>n n'. section_id n = a \<and> n' = spread n u) T (updateSectionRecursive a u T)"
proof (induction T rule: ids.induct)
  case 1
  then show ?case by simp
next
  case (2 i t c st ch rest)
  let ?R = "\<lambda>n n'. section_id n = a \<and> n' = spread n u"
  from "2.prems" have d: "distinct (ids ch)" "distinct (ids rest)"
    and disj: "set (ids ch) \<inter> set (ids rest) = {}"
    and i: "i \<notin> set (ids ch)" "i \<notin> set (ids rest)"
    by auto
  consider (root) "a = i" | (inside) "a \<noteq> i" "a \<in> set (ids ch)" | (after) "a \<noteq> i" "a \<in> set (ids rest)" "a \<notin> set (ids ch)"
    using "2.prems"(2) by auto
  then show ?case
  proof cases
    case root
    with i have "updateSectionRecursive a u rest = rest"
      by (simp add: update_absent)
    with root show ?thesis
      by (simp add: one_node_replaced.here)
  next
    case inside
    with disj have "a \<notin> set (ids rest)" by auto
    then have "updateSectionRecursive a u rest = rest"
      by (rule update_absent)
    moreover from inside have "ch \<noteq> []" by auto
    moreover have "one_node_replaced ?R ch (updateSectionRecursive a u ch)"
      using "2.IH"(1) d(1) inside(2) by simp
    ultimately show ?thesis
      using inside(1) by (simp add: one_node_replaced.below)
  next
    case after
    then have "updateSectionRecursive a u ch = ch"
      by (simp add: update_absent)
    moreover have "one_node_replaced ?R rest (updateSectionRecursive a u rest)"
      using "2.IH"(2) d(2) after(2) by simp
    ultimately show ?thesis
      using after(1) by (simp add: one_node_replaced.later)
  qed
qed

lemma add_replaces_one:
  "distinct (ids T) \<Longrightarrow> p \<in> set (ids T) \<Longrightarrow>
   one_node_replaced (\<lambda>P P'. section_id P = p \<and> P' = with_children P (children P @ [n]))
     T (addSectionRecursive p n T)"
proof (induction T rule: ids.induct)
  case 1
  then show ?case by simp
next
  case (2 i t c st ch rest)
  let ?R = "\<lambda>P P'. section_id P = p \<and> P' = with_children P (children P @ [n])"
  from "2.prems" have d: "distinct (ids ch)" "distinct (ids rest)"
    and disj: "set (ids ch) \<inter> set (ids rest) = {}"
    and i: "i \<notin> set (ids ch)" "i \<notin> set (ids rest)"
    by auto
  consider (root) "p = i" | (inside) "p \<noteq> i" "p \<in> set (ids ch)" | (after) "p \<noteq> i" "p \<in> set (ids rest)" "p \<notin> set (ids ch)"
    using "2.prems"(2) by auto
  then show ?case
  proof cases
    case root
    with i have "addSectionRecursive p n rest = rest"
      by (simp add: add_absent)
    with root show ?thesis
      by (simp add: one_node_replaced.here with_children_def)
  next
    case inside
    with disj have "p \<notin> set (ids rest)" by auto
    then have "addSectionRecursive p n rest = rest"
      by (rule add_absent)
    moreover from inside have "ch \<noteq> []" by auto
    moreover have "one_node_replaced ?R ch (addSectionRecursive p n ch)"
      using "2.IH"(1) d(1) inside(2) by simp
    ultimately show ?thesis
      using inside(1) by (simp add: one_node_replaced.below)
  next
    case after
    then have "addSectionRecursive p n ch = ch"
      by (simp add: add_absent)
    moreover have "one_node_replaced ?R rest (addSectionRecursive p n rest)"
      using "2.IH"(2) d(2) after(2) by simp
    ultimately show ?thesis
      using after(1) by (simp add: one_node_replaced.later)
  qed
qed

section \<open>Identifiers under insertion\<close>

lemma add_ids_lower: "set (ids T) \<subseteq> set (ids (addSectionRecursive p n T))"
  by (induction T rule: ids.induct) auto

lemma add_ids_upper: "set (ids (addSectionRecursive p n T)) \<subseteq> set (ids T) \<union> set (ids [n])"
  by (induction T rule: ids.induct) auto

lemma add_ids_new: "p \<in> set (ids T) \<Longrightarrow> set (ids [n]) \<subseteq> set (ids (addSectionRecursive p n T))"
  by (induction T rule: ids.induct) auto

lemma add_distinct:
  "distinct (ids T) \<Longrightarrow> distinct (ids [n]) \<Longrightarrow> set (ids [n]) \<inter> set (ids T) = {} \<Longrightarrow>
   distinct (ids (addSectionRecursive p n T))"
proof (induction T rule: ids.induct)
  case 1
  then show ?case by simp
next
  case (2 i t c st ch rest)
  from "2.prems" have d: "distinct (ids ch)" "distinct (ids rest)"
    and disj: "set (ids ch) \<inter> set (ids rest) = {}"
    and i: "i \<notin> set (ids ch)" "i \<notin> set (ids rest)"
    and n: "set (ids [n]) \<inter> set (ids ch) = {}" "set (ids [n]) \<inter> set (ids rest) = {}"
      "i \<notin> set (ids [n])"
    by auto
  have dch: "distinct (ids (addSectionRecursive p n ch))"
    using "2.IH"(1) d(1) "2.prems"(2) n(1) by simp
  have drest: "distinct (ids (addSectionRecursive p n rest))"
    using "2.IH"(2) d(2) "2.prems"(2) n(2) by simp
  show ?case
  proof (cases "p = i")
    case True
    with i have "addSectionRecursive p n rest = rest"
      by (simp add: add_absent)
    with True d disj i n "2.prems"(2) show ?thesis
      by auto
  next
    case False
    show ?thesis
    proof (cases "p \<in> set (ids ch)")
      case True
      with disj have "p \<notin> set (ids rest)" by auto
      then have r: "addSectionRecursive p n rest = rest"
        by (rule add_absent)
      have "set (ids (addSectionRecursive p n ch)) \<inter> set (ids rest) = {}"
        using add_ids_upper [of p n ch] disj n(2) by auto
      moreover have "i \<notin> set (ids (addSectionRecursive p n ch))"
        using add_ids_upper [of p n ch] i(1) n(3) by auto
      ultimately show ?thesis
        using False r dch d(2) i(2) by auto
    next
      case notin: False
      then have c: "addSectionRecursive p n ch = ch"
        by (rule add_absent)
      have "set (ids ch) \<inter> set (ids (addSectionRecursive p n rest)) = {}"
        using add_ids_upper [of p n rest] disj n(1) by auto
      moreover have "i \<notin> set (ids (addSectionRecursive p n rest))"
        using add_ids_upper [of p n rest] i(2) n(3) by auto
      ultimately show ?thesis
        using False c drest d(1) i(1) by auto
    qed
  qed
qed

lemma add_distinct_only_if:
  "distinct (ids (addSectionRecursive p n T)) \<Longrightarrow> p \<in> set (ids T) \<Longrightarrow>
   distinct (ids [n]) \<and> set (ids [n]) \<inter> set (ids T) = {}"
proof (induction T rule: ids.induct)
  case 1
  then show ?case by simp
next
  case (2 i t c st ch rest)
  have low_ch: "set (ids ch) \<subseteq> set (ids (addSectionRecursive p n ch))"
    and low_rest: "set (ids rest) \<subseteq> set (ids (addSectionRecursive p n rest))"
    by (rule add_ids_lower)+
  show ?case
  proof (cases "p = i")
    case True
    with "2.prems"(1) low_rest show ?thesis
      by auto
  next
    case False
    show ?thesis
    proof (cases "ch = []")
      case True
      with False "2.prems" have d: "distinct (ids (addSectionRecursive p n rest))"
        and p: "p \<in> set (ids rest)" and i: "i \<notin> set (ids (addSectionRecursive p n rest))"
        by auto
      from "2.IH"(2) [OF d p] have "distinct (ids [n])" "set (ids [n]) \<inter> set (ids rest) = {}"
        by simp_all
      moreover have "i \<notin> set (ids [n])"
        using add_ids_new [OF p, of n] i by auto
      ultimately show ?thesis
        using True by auto
    next
      case ne: False
      with False "2.prems"(1) have dc: "distinct (ids (addSectionRecursive p n ch))"
        and dr: "distinct (ids (addSectionRecursive p n rest))"
        and ic: "i \<notin> set (ids (addSectionRecursive p n ch))"
        and ir: "i \<notin> set (ids (addSectionRecursive p n rest))"
        and cr: "set (ids (addSectionRecursive p n ch)) \<inter> set (ids (addSectionRecursive p n rest)) = {}"
        by auto
      from False "2.prems"(2) consider (inside) "p \<in> set (ids ch)" | (after) "p \<in> set (ids rest)"
        by auto
      then show ?thesis
      proof cases
        case inside
        from "2.IH"(1) [OF dc inside] have "distinct (ids [n])" "set (ids [n]) \<inter> set (ids ch) = {}"
          by simp_all
        moreover have "set (ids [n]) \<subseteq> set (ids (addSectionRecursive p n ch))"
          by (rule add_ids_new [OF inside])
        ultimately show ?thesis
          using ic cr low_rest by auto
      next
        case after
        from "2.IH"(2) [OF dr after] have "distinct (ids [n])" "set (ids [n]) \<inter> set (ids rest) = {}"
          by simp_all
        moreover have "set (ids [n]) \<subseteq> set (ids (addSectionRecursive p n rest))"
          by (rule add_ids_new [OF after])
        ultimately show ?thesis
          using ir cr low_ch by auto
      qed
    qed
  qed
qed

section \<open>One replaced node\<close>

text \<open>
  The relation keeps the number of roots, and it relates a forest to itself only when the
  replacing node is the replaced one.
\<close>

lemma one_node_replaced_length: "one_node_replaced R T T' \<Longrightarrow> length T' = length T"
  by (induction rule: one_node_replaced.induct) simp_all

lemma one_node_replaced_same:
  "one_node_replaced R T T' \<Longrightarrow> (\<And>n n'. R n n' \<Longrightarrow> n' = n) \<Longrightarrow> T' = T"
  by (induction rule: one_node_replaced.induct) simp_all

text \<open>A weaker relation between the two nodes gives a weaker relation between the forests.\<close>

lemma one_node_replaced_mono:
  "one_node_replaced R T T' \<Longrightarrow> (\<And>n n'. R n n' \<Longrightarrow> R' n n') \<Longrightarrow> one_node_replaced R' T T'"
  by (induction rule: one_node_replaced.induct) (auto intro: one_node_replaced.intros)

text \<open>When the replacing node has the identifier of the replaced one, the roots keep theirs.\<close>

lemma one_node_replaced_roots:
  "one_node_replaced R T T' \<Longrightarrow> (\<And>n n'. R n n' \<Longrightarrow> section_id n' = section_id n) \<Longrightarrow>
   map section_id T' = map section_id T"
  by (induction rule: one_node_replaced.induct) simp_all

section \<open>The sections that a rewrite reaches\<close>


lemma reached_nonempty: "a \<in> set (ids T) \<Longrightarrow> reached a T \<noteq> []"
  by (induction a T rule: reached.induct) auto




lemma add_reached:
  "reached p (addSectionRecursive p n T)
     = map (\<lambda>P. Section p (section_type P) (content P) (styles P) (children P @ [n]))
         (reached p T)"
  by (induction p T rule: reached.induct) (auto simp: with_children_def)

lemma add_cut_below: "cut_below p (addSectionRecursive p n T) = cut_below p T"
  by (induction p T rule: cut_below.induct) (auto simp: with_children_def)

section \<open>The editor's operations in terms of the rewrites\<close>

text \<open>
  With a document open and a CV selected, \<^verbatim>\<open>updateSection\<close> and \<^verbatim>\<open>addSection\<close> put the
  rewritten forest into \<^verbatim>\<open>cvData\<close> and its text under the key of the CV; every other
  key of the store, the registry and the selection stay as they were.
\<close>

lemma updateSection_document:
  assumes "cvData st = Some d" and "selectedCVId st = Some cid" and "cid \<noteq> []"
  shows "updateSection stringify sectionId updates st =
           st\<lparr>localStorage := (localStorage st)
                 (''cv_'' @ cid \<mapsto> stringify (CVData_to_json
                    (d\<lparr>sections := updateSectionRecursive sectionId updates (sections d)\<rparr>))),
              cvData := Some (d\<lparr>sections := updateSectionRecursive sectionId updates (sections d)\<rparr>)\<rparr>"
  using assms by (simp add: updateSection_def saveCVData_def)

lemma addSection_document:
  assumes "cvData st = Some d" and "selectedCVId st = Some cid" and "cid \<noteq> []"
  shows "addSection stringify uuid parentId direction st =
           st\<lparr>localStorage := (localStorage st)
                 (''cv_'' @ cid \<mapsto> stringify (CVData_to_json
                    (d\<lparr>sections := addSectionRecursive parentId (newSection uuid) (sections d)\<rparr>))),
              cvData := Some (d\<lparr>sections := addSectionRecursive parentId (newSection uuid) (sections d)\<rparr>)\<rparr>"
  using assms by (simp add: addSection_def saveCVData_def)

text \<open>Without a document, or without a selected CV, neither of them changes anything.\<close>

lemma updateSection_idle:
  "cvData st = None \<or> \<not> truthy (selectedCVId st) \<Longrightarrow>
   updateSection stringify sectionId updates st = st"
  by (auto simp: updateSection_def saveCVData_def split: option.splits)

lemma addSection_idle:
  "cvData st = None \<or> \<not> truthy (selectedCVId st) \<Longrightarrow>
   addSection stringify uuid parentId direction st = st"
  by (auto simp: addSection_def saveCVData_def split: option.splits)

text \<open>The key of a document is never the key of the registry.\<close>

lemma document_key_not_registry: "''cv_'' @ cid \<noteq> ''cvs''"
  by simp

text \<open>None of the three updates that \<^verbatim>\<open>CVSection.tsx\<close> sends carries an id or children.\<close>

lemma CVSection_updates:
  "id_upd (handleSaveText textContent) = None \<and> children_upd (handleSaveText textContent) = None \<and>
   id_upd (handleSaveStyles bg pad mar bs bw bc) = None \<and>
   children_upd (handleSaveStyles bg pad mar bs bw bc) = None \<and>
   id_upd (handleFileChange imageUrl) = None \<and> children_upd (handleFileChange imageUrl) = None"
  by (simp add: handleSaveText_def handleSaveStyles_def handleFileChange_def)

section \<open>\<^verbatim>\<open>JSON.parse\<close> reads what \<^verbatim>\<open>JSON.stringify\<close> writes\<close>

lemma hex_value_hex_digit: "k < 16 \<Longrightarrow> hex_value (hex_digit k) = Some k"
  by (auto simp: hex_value_def hex_digit_def Let_def)

lemma code_unit_control:
  assumes "(of_char c :: nat) < 32"
  shows "code_unit (CHR ''0'') (CHR ''0'') (hex_digit (of_char c div 16)) (hex_digit (of_char c mod 16))
           = Some c"
proof -
  have "(of_char c :: nat) div 16 < 16" using assms by simp
  moreover have "(of_char c :: nat) mod 16 < 16" by simp
  moreover have "hex_value (CHR ''0'') = Some 0" by (simp add: hex_value_def)
  ultimately show ?thesis
    using assms by (simp add: code_unit_def hex_value_hex_digit)
qed

lemma parse_chars_quote_char:
  "parse_chars (quote_char c @ t) = map_option (\<lambda>(s, r). (c # s, r)) (parse_chars t)"
proof -
  consider (b) "c = CHR 0x08" | (t) "c = CHR 0x09" | (n) "c = CHR 0x0A" | (f) "c = CHR 0x0C"
    | (r) "c = CHR 0x0D" | (q) "c = CHR 0x22" | (s) "c = CHR 0x5C"
    | (u) "c \<notin> {CHR 0x08, CHR 0x09, CHR 0x0A, CHR 0x0C, CHR 0x0D, CHR 0x22, CHR 0x5C}"
          "(of_char c :: nat) < 32"
    | (plain) "c \<notin> {CHR 0x08, CHR 0x09, CHR 0x0A, CHR 0x0C, CHR 0x0D, CHR 0x22, CHR 0x5C}"
          "\<not> (of_char c :: nat) < 32"
    by blast
  then show ?thesis
  proof cases
    case u
    then show ?thesis
      by (simp add: quote_char_def code_unit_control)
  next
    case plain
    then show ?thesis
      by (simp add: quote_char_def)
  qed (simp_all add: quote_char_def unescape_def)
qed

lemma parse_chars_quoted:
  "parse_chars (concat (map quote_char s) @ CHR 0x22 # rest) = Some (s, rest)"
proof (induction s)
  case Nil
  then show ?case by simp
next
  case (Cons c s)
  then show ?case
    by (simp add: parse_chars_quote_char del: parse_chars.simps(2))
qed

lemma parse_chars_QuoteJSONString:
  "QuoteJSONString s @ rest = CHR 0x22 # t \<Longrightarrow> parse_chars t = Some (s, rest)"
  by (auto simp: QuoteJSONString_def parse_chars_quoted)


lemma skip_ws_quote [simp]: "skip_ws (QuoteJSONString k @ t) = QuoteJSONString k @ t"
  by (simp add: QuoteJSONString_def is_ws_def)

lemma stringify_head:
  "plain v \<Longrightarrow> \<exists>c t. JSON_stringify nt v = c # t \<and>
     c \<in> {CHR ''n'', CHR ''t'', CHR ''f'', CHR 0x22, CHR ''['', CHR ''{''}"
  by (cases v) (auto simp: QuoteJSONString_def)

lemma skip_ws_stringify: "plain v \<Longrightarrow> skip_ws (JSON_stringify nt v @ t) = JSON_stringify nt v @ t"
  using stringify_head [of v nt] by (auto simp: is_ws_def)

















section \<open>The properties\<close>

subsection \<open>C1: a targeted update\<close>

text \<open>
  C1 as the specification words it does not hold: it asks that every ancestor of the
  updated node \<open>A\<close> be deep-equal to its original, and an ancestor holds \<open>A\<close> among its
  descendants, so it differs as soon as the new content differs from the old. With a
  root \<open>p\<close> whose only child \<open>a\<close> has content \<open>x\<close>, the update of \<open>a\<close> to content \<open>y\<close>
  returns a root that is not equal to \<open>p\<close>.
\<close>

theorem C1_ancestor_not_deep_equal_counterexample:
  "distinct (ids [Section ''p'' Container '''' (styles (newSection ''p''))
                    [Section ''a'' Text ''x'' (styles (newSection ''a'')) []]]) \<and>
   updateSectionRecursive ''a''
     \<lparr>id_upd = None, type_upd = None, content_upd = Some ''y'', styles_upd = None,
      children_upd = None\<rparr>
     [Section ''p'' Container '''' (styles (newSection ''p''))
        [Section ''a'' Text ''x'' (styles (newSection ''a'')) []]]
   = [Section ''p'' Container '''' (styles (newSection ''p''))
        [Section ''a'' Text ''y'' (styles (newSection ''a'')) []]] \<and>
   Section ''p'' Container '''' (styles (newSection ''p''))
     [Section ''a'' Text ''y'' (styles (newSection ''a'')) []]
   \<noteq> Section ''p'' Container '''' (styles (newSection ''p''))
       [Section ''a'' Text ''x'' (styles (newSection ''a'')) []]"
  by (simp add: spread_def)

text \<open>
  C1, amended. For every forest with unique identifiers that contains a node \<open>A\<close> with
  identifier \<open>a\<close>, the update of \<open>a\<close> with \<^verbatim>\<open>{content: y}\<close> returns the same forest but for
  that one node, which keeps its id, type, styles and children and has content \<open>y\<close>.
  All siblings of \<open>A\<close> and of its ancestors, and the children of \<open>A\<close>, are equal to
  their originals; an ancestor keeps its own id, type, content and styles and differs
  from its original only in the descendant \<open>A\<close>.
\<close>

theorem C1_targeted_update:
  assumes "distinct (ids T)" and "a \<in> set (ids T)"
  shows "one_node_replaced
           (\<lambda>A A'. section_id A = a \<and>
                    A' = Section a (section_type A) y (styles A) (children A))
           T
           (updateSectionRecursive a
              \<lparr>id_upd = None, type_upd = None, content_upd = Some y,
               styles_upd = None, children_upd = None\<rparr> T)"
  by (rule one_node_replaced_mono [OF update_replaces_one [OF assms]]) (simp add: spread_def)

theorem C1_targeted_update_witness:
  "distinct (ids [Section ''r'' Container '''' (styles (newSection ''r''))
                    [Section ''a'' Text ''x'' (styles (newSection ''a'')) [], newSection ''b'']]) \<and>
   ''a'' \<in> set (ids [Section ''r'' Container '''' (styles (newSection ''r''))
                          [Section ''a'' Text ''x'' (styles (newSection ''a'')) [], newSection ''b'']]) \<and>
   one_node_replaced
     (\<lambda>A A'. section_id A = ''a'' \<and>
              A' = Section ''a'' (section_type A) ''y'' (styles A) (children A))
     [Section ''r'' Container '''' (styles (newSection ''r''))
        [Section ''a'' Text ''x'' (styles (newSection ''a'')) [], newSection ''b'']]
     [Section ''r'' Container '''' (styles (newSection ''r''))
        [Section ''a'' Text ''y'' (styles (newSection ''a'')) [], newSection ''b'']]"
proof -
  have d: "distinct (ids [Section ''r'' Container '''' (styles (newSection ''r''))
                    [Section ''a'' Text ''x'' (styles (newSection ''a'')) [], newSection ''b'']])"
    by (simp add: newSection_def)
  have m: "''a'' \<in> set (ids [Section ''r'' Container '''' (styles (newSection ''r''))
                          [Section ''a'' Text ''x'' (styles (newSection ''a'')) [], newSection ''b'']])"
    by simp
  show ?thesis
    using d m C1_targeted_update [OF d m, of "''y''"] by (simp add: spread_def newSection_def)
qed

subsection \<open>C2: insertion appends\<close>

text \<open>
  C2 as the specification words it does not hold, on two counts. The claim gives \<open>n\<close> an
  identifier distinct from all existing ones, and \<^verbatim>\<open>addSection\<close> never compares the
  minted identifier with those of the forest: inserting a section minted with the
  identifier \<open>r\<close> below the root \<open>r\<close> of a new document gives a forest with the
  identifiers \<open>r, r\<close>. And the claim speaks of every forest: in a forest where two roots
  share the identifier \<open>p\<close>, the insertion below \<open>p\<close> appends to both, so the result
  differs from the input in two nodes, not in the children of one.
\<close>

theorem C2_colliding_or_duplicate_id_counterexample:
  "ids (addSectionRecursive ''r'' (newSection ''r'') (sections (initialCVData ''r'')))
     = [''r'', ''r''] \<and>
   addSectionRecursive ''p'' (newSection ''n'') [newSection ''p'', newSection ''p'']
     = [Section ''p'' Container '''' (styles (newSection ''p'')) [newSection ''n''],
        Section ''p'' Container '''' (styles (newSection ''p'')) [newSection ''n'']] \<and>
   Section ''p'' Container '''' (styles (newSection ''p'')) [newSection ''n'']
     \<noteq> newSection ''p''"
  by (simp add: newSection_def initialCVData_def)

text \<open>
  C2, amended. For every forest and every section \<open>n\<close>, the insertion returns the same
  forest but for the sections with identifier \<open>parentId\<close> that it reaches (those that
  do not lie below another such section), whose children are their former children, in
  their order, followed by \<open>n\<close>; a forest that holds the identifier has such a section,
  and then the identifiers of the result are those of the input and of \<open>n\<close>. In a
  forest with unique identifiers that contains a node \<open>P\<close> with identifier \<open>parentId\<close>
  the insertion returns the same forest but for \<open>P\<close>, which has \<open>n\<close> after its former
  children. The code does not check the identifiers of \<open>n\<close>: the identifiers of that
  result are unique exactly when those of \<open>n\<close> are unique and none of them occurs in the
  input.
\<close>

theorem C2_insert_appends:
  "cut_below parentId (addSectionRecursive parentId n T) = cut_below parentId T \<and>
   reached parentId (addSectionRecursive parentId n T)
     = map (\<lambda>P. Section parentId (section_type P) (content P) (styles P) (children P @ [n]))
         (reached parentId T) \<and>
   (parentId \<in> set (ids T) \<longrightarrow>
      reached parentId T \<noteq> [] \<and>
      set (ids (addSectionRecursive parentId n T)) = set (ids T) \<union> set (ids [n])) \<and>
   (distinct (ids T) \<longrightarrow> parentId \<in> set (ids T) \<longrightarrow>
      one_node_replaced
        (\<lambda>P P'. section_id P = parentId \<and>
                 P' = Section parentId (section_type P) (content P) (styles P)
                        (children P @ [n]))
        T (addSectionRecursive parentId n T) \<and>
      distinct (ids (addSectionRecursive parentId n T))
        = (distinct (ids [n]) \<and> set (ids [n]) \<inter> set (ids T) = {}))"
proof (intro conjI impI)
  show "cut_below parentId (addSectionRecursive parentId n T) = cut_below parentId T"
    by (rule add_cut_below)
  show "reached parentId (addSectionRecursive parentId n T)
     = map (\<lambda>P. Section parentId (section_type P) (content P) (styles P) (children P @ [n]))
         (reached parentId T)"
    by (rule add_reached)
next
  assume m: "parentId \<in> set (ids T)"
  then show "reached parentId T \<noteq> []"
    by (rule reached_nonempty)
  show "set (ids (addSectionRecursive parentId n T)) = set (ids T) \<union> set (ids [n])"
    using add_ids_lower [of T parentId n] add_ids_upper [of parentId n T]
      add_ids_new [OF m, of n] by blast
next
  assume d: "distinct (ids T)" and m: "parentId \<in> set (ids T)"
  show "one_node_replaced
           (\<lambda>P P'. section_id P = parentId \<and>
                    P' = Section parentId (section_type P) (content P) (styles P)
                           (children P @ [n]))
           T (addSectionRecursive parentId n T)"
    by (rule one_node_replaced_mono [OF add_replaces_one [OF d m]])
      (simp add: with_children_def)
  show "distinct (ids (addSectionRecursive parentId n T))
           = (distinct (ids [n]) \<and> set (ids [n]) \<inter> set (ids T) = {})"
    using add_distinct [OF d, of n parentId] add_distinct_only_if [OF _ m, of n]
    by blast
qed

text \<open>
  The witness appends to a root with two children, and to the two roots of a forest in
  which they share an identifier.
\<close>

theorem C2_insert_appends_witness:
  "distinct (ids [Section ''r'' Container '''' (styles (newSection ''r''))
                    [newSection ''c1'', newSection ''c2'']]) \<and>
   ''r'' \<in> set (ids [Section ''r'' Container '''' (styles (newSection ''r''))
                          [newSection ''c1'', newSection ''c2'']]) \<and>
   one_node_replaced
     (\<lambda>P P'. section_id P = ''r'' \<and>
              P' = Section ''r'' (section_type P) (content P) (styles P)
                     (children P @ [newSection ''n'']))
     [Section ''r'' Container '''' (styles (newSection ''r'')) [newSection ''c1'', newSection ''c2'']]
     [Section ''r'' Container '''' (styles (newSection ''r''))
        [newSection ''c1'', newSection ''c2'', newSection ''n'']] \<and>
   distinct (ids (addSectionRecursive ''r'' (newSection ''n'')
          [Section ''r'' Container '''' (styles (newSection ''r''))
             [newSection ''c1'', newSection ''c2'']])) \<and>
   ids (addSectionRecursive ''r'' (newSection ''n'')
          [Section ''r'' Container '''' (styles (newSection ''r''))
             [newSection ''c1'', newSection ''c2'']])
   = [''r'', ''c1'', ''c2'', ''n''] \<and>
   ''p'' \<in> set (ids [newSection ''p'', newSection ''p'']) \<and>
   reached ''p'' [newSection ''p'', newSection ''p''] = [newSection ''p'', newSection ''p''] \<and>
   reached ''p'' (addSectionRecursive ''p'' (newSection ''n'') [newSection ''p'', newSection ''p''])
   = [Section ''p'' Container '''' (styles (newSection ''p'')) [newSection ''n''],
      Section ''p'' Container '''' (styles (newSection ''p'')) [newSection ''n'']] \<and>
   cut_below ''p''
     (addSectionRecursive ''p'' (newSection ''n'') [newSection ''p'', newSection ''p''])
   = [newSection ''p'', newSection ''p'']"
proof -
  have d: "distinct (ids [Section ''r'' Container '''' (styles (newSection ''r''))
                    [newSection ''c1'', newSection ''c2'']])"
    by (simp add: newSection_def)
  have m: "''r'' \<in> set (ids [Section ''r'' Container '''' (styles (newSection ''r''))
                          [newSection ''c1'', newSection ''c2'']])"
    by simp
  have m': "''p'' \<in> set (ids [newSection ''p'', newSection ''p''])"
    by (simp add: newSection_def)
  show ?thesis
    using d m m'
      C2_insert_appends [of "''r''" "newSection ''n''"
        "[Section ''r'' Container '''' (styles (newSection ''r''))
            [newSection ''c1'', newSection ''c2'']]"]
      C2_insert_appends [of "''p''" "newSection ''n''" "[newSection ''p'', newSection ''p'']"]
    by (simp add: newSection_def)
qed

subsection \<open>C3: saving and loading\<close>








subsection \<open>C4: an identifier that matches no section\<close>

text \<open>
  C4. For every forest \<open>T\<close> and every identifier that matches no node of \<open>T\<close>, the
  update and the insertion each return a forest equal to \<open>T\<close>: a no-op, not an error.
  The witness runs both on a root with two children and an identifier that none of the
  three has.
\<close>

theorem C4_absent_id_is_noop:
  "sectionId \<notin> set (ids T) \<Longrightarrow>
   updateSectionRecursive sectionId updates T = T \<and> addSectionRecursive sectionId new T = T"
  by (simp add: update_absent add_absent)

theorem C4_absent_id_is_noop_witness:
  "''zz'' \<notin> set (ids [Section ''r'' Container '''' (styles (newSection ''r''))
                          [newSection ''a'', newSection ''b'']]) \<and>
   updateSectionRecursive ''zz'' (handleSaveText ''hello'')
     [Section ''r'' Container '''' (styles (newSection ''r'')) [newSection ''a'', newSection ''b'']]
   = [Section ''r'' Container '''' (styles (newSection ''r'')) [newSection ''a'', newSection ''b'']] \<and>
   addSectionRecursive ''zz'' (newSection ''c'')
     [Section ''r'' Container '''' (styles (newSection ''r'')) [newSection ''a'', newSection ''b'']]
   = [Section ''r'' Container '''' (styles (newSection ''r'')) [newSection ''a'', newSection ''b'']]"
  using C4_absent_id_is_noop [of "''zz''"
      "[Section ''r'' Container '''' (styles (newSection ''r'')) [newSection ''a'', newSection ''b'']]"
      "handleSaveText ''hello''" "newSection ''c''"]
  by (simp add: newSection_def)

subsection \<open>C5: identifiers stay unique\<close>

lemma ids_newSection: "ids [newSection uuid] = [uuid]"
  by (simp add: newSection_def)

lemma addSection_keeps_unique:
  assumes "distinct (document_ids st)" and "uuid \<notin> set (document_ids st)"
  shows "distinct (document_ids (addSection stringify uuid parentId direction st))"
proof (cases "cvData st")
  case None
  then show ?thesis
    using assms(1) by (simp add: addSection_def)
next
  case (Some d)
  with assms have "distinct (ids (addSectionRecursive parentId (newSection uuid) (sections d)))"
    by (intro add_distinct) (simp_all add: document_ids_def ids_newSection)
  with Some assms(1) show ?thesis
    by (simp add: addSection_def saveCVData_def document_ids_def split: option.splits)
qed

lemma addSection_keeps_document:
  "cvData st \<noteq> None \<Longrightarrow> cvData (addSection stringify uuid parentId direction st) \<noteq> None"
  by (auto simp: addSection_def saveCVData_def split: option.splits)

lemma addSections_keep_unique:
  "distinct (document_ids st) \<Longrightarrow> cvData st \<noteq> None \<Longrightarrow> minted_fresh stringify calls st \<Longrightarrow>
   distinct (document_ids (addSections stringify calls st)) \<and>
   cvData (addSections stringify calls st) \<noteq> None"
proof (induction stringify calls st rule: addSections.induct)
  case (1 stringify st)
  then show ?case by simp
next
  case (2 stringify uuid parentId direction calls st)
  from "2.prems" have "distinct (document_ids (addSection stringify uuid parentId direction st))"
    by (simp add: addSection_keeps_unique)
  moreover from "2.prems" have "cvData (addSection stringify uuid parentId direction st) \<noteq> None"
    by (simp add: addSection_keeps_document)
  ultimately show ?case
    using "2.IH" "2.prems"(3) by simp
qed

text \<open>
  C5. Start from a freshly created document (the one \<^verbatim>\<open>createNewCV\<close> stores, open in the
  editor) and let \<^verbatim>\<open>addSection\<close> be called any number of times, with any parents and
  directions, each call minting an identifier that is new to the document at that
  time. Then the editor still holds a document, and no two of its sections, at any
  depth, share an identifier.
\<close>

theorem C5_identifiers_stay_unique:
  assumes "cvData st = Some (initialCVData rootUuid)"
    and "minted_fresh stringify calls st"
  shows "\<exists>d. cvData (addSections stringify calls st) = Some d \<and> distinct (ids (sections d))"
proof -
  from assms(1) have "distinct (document_ids st)" and "cvData st \<noteq> None"
    by (simp_all add: document_ids_def initialCVData_def)
  then have "distinct (document_ids (addSections stringify calls st)) \<and>
             cvData (addSections stringify calls st) \<noteq> None"
    using assms(2) by (rule addSections_keep_unique)
  then show ?thesis
    by (auto simp: document_ids_def)
qed

theorem C5_identifiers_stay_unique_witness:
  "cvData \<lparr>localStorage = Map.empty, cvs = [], selectedCVId = Some ''cv1'',
           cvData = Some (initialCVData ''r'')\<rparr> = Some (initialCVData ''r'') \<and>
   minted_fresh (\<lambda>v. ''text'')
     [(''a'', ''r'', Horizontal), (''b'', ''a'', Vertical), (''c'', ''r'', Vertical)]
     \<lparr>localStorage = Map.empty, cvs = [], selectedCVId = Some ''cv1'',
      cvData = Some (initialCVData ''r'')\<rparr> \<and>
   (\<exists>d. cvData (addSections (\<lambda>v. ''text'')
              [(''a'', ''r'', Horizontal), (''b'', ''a'', Vertical), (''c'', ''r'', Vertical)]
              \<lparr>localStorage = Map.empty, cvs = [], selectedCVId = Some ''cv1'',
               cvData = Some (initialCVData ''r'')\<rparr>) = Some d \<and>
        distinct (ids (sections d)) \<and> ids (sections d) = [''r'', ''a'', ''b'', ''c''])"
proof -
  have c: "cvData \<lparr>localStorage = Map.empty, cvs = [], selectedCVId = Some ''cv1'',
           cvData = Some (initialCVData ''r'')\<rparr> = Some (initialCVData ''r'')"
    by simp
  have f: "minted_fresh (\<lambda>v. ''text'')
     [(''a'', ''r'', Horizontal), (''b'', ''a'', Vertical), (''c'', ''r'', Vertical)]
     \<lparr>localStorage = Map.empty, cvs = [], selectedCVId = Some ''cv1'',
      cvData = Some (initialCVData ''r'')\<rparr>"
    by (simp add: addSection_def saveCVData_def document_ids_def initialCVData_def newSection_def)
  show ?thesis
    using c f C5_identifiers_stay_unique [OF c f]
    by (simp add: addSection_def saveCVData_def initialCVData_def newSection_def)
qed

subsection \<open>C6: a stored value that is not a document\<close>

text \<open>
  C6 as the specification words it does not hold: the load effect passes on whatever
  \<^verbatim>\<open>JSON.parse\<close> returns, and nothing in the source checks its shape. Let the stored
  text be a document whose one section has a \<^verbatim>\<open>styles\<close> object without any field, and
  let \<^verbatim>\<open>JSON.parse\<close> read it as it does. The effect calls \<^verbatim>\<open>setCVData\<close> with that
  value, which is the value of no document: the load has not failed, and the editor
  holds a section that lacks the required style fields.
\<close>

theorem C6_wrong_shape_is_loaded_counterexample:
  \<open>load_effect
     (map_of [(''{"sections":[{"id":"a","type":"container","content":"","styles":{},"children":[]}]}'',
       JObject [(''sections'', JArray [
        JObject [(''id'', JString ''a''),
                 (''type'', JString ''container''),
                 (''content'', JString ''''),
                 (''styles'', JObject []),
                 (''children'', JArray [])]])])])
     \<lparr>localStorage = Map.empty(''cv_a'' \<mapsto>
        ''{"sections":[{"id":"a","type":"container","content":"","styles":{},"children":[]}]}''),
      cvs = [], selectedCVId = Some ''a'', cvData = None\<rparr>
   = SetCVData
       (JObject [(''sections'', JArray [
        JObject [(''id'', JString ''a''),
                 (''type'', JString ''container''),
                 (''content'', JString ''''),
                 (''styles'', JObject []),
                 (''children'', JArray [])]])]) \<and>
   JObject [(''sections'', JArray [
        JObject [(''id'', JString ''a''),
                 (''type'', JString ''container''),
                 (''content'', JString ''''),
                 (''styles'', JObject []),
                 (''children'', JArray [])]])]
     \<notin> range CVData_to_json \<and>
   json_get (JObject []) ''backgroundColor'' = None\<close>
proof (intro conjI)
  show "json_get (JObject []) ''backgroundColor'' = None"
    by simp
  show \<open>load_effect
     (map_of [(''{"sections":[{"id":"a","type":"container","content":"","styles":{},"children":[]}]}'',
       JObject [(''sections'', JArray [
        JObject [(''id'', JString ''a''),
                 (''type'', JString ''container''),
                 (''content'', JString ''''),
                 (''styles'', JObject []),
                 (''children'', JArray [])]])])])
     \<lparr>localStorage = Map.empty(''cv_a'' \<mapsto>
        ''{"sections":[{"id":"a","type":"container","content":"","styles":{},"children":[]}]}''),
      cvs = [], selectedCVId = Some ''a'', cvData = None\<rparr>
   = SetCVData
       (JObject [(''sections'', JArray [
        JObject [(''id'', JString ''a''),
                 (''type'', JString ''container''),
                 (''content'', JString ''''),
                 (''styles'', JObject []),
                 (''children'', JArray [])]])])\<close>
    by (simp add: load_effect_def)
  show "JObject [(''sections'', JArray [
        JObject [(''id'', JString ''a''),
                 (''type'', JString ''container''),
                 (''content'', JString ''''),
                 (''styles'', JObject []),
                 (''children'', JArray [])]])]
     \<notin> range CVData_to_json"
  proof
    assume "JObject [(''sections'', JArray [
        JObject [(''id'', JString ''a''),
                 (''type'', JString ''container''),
                 (''content'', JString ''''),
                 (''styles'', JObject []),
                 (''children'', JArray [])]])]
       \<in> range CVData_to_json"
    then obtain D where "JObject [(''sections'', JArray [
        JObject [(''id'', JString ''a''),
                 (''type'', JString ''container''),
                 (''content'', JString ''''),
                 (''styles'', JObject []),
                 (''children'', JArray [])]])]
       = CVData_to_json D"
      by (rule rangeE)
    then obtain s where "Section_to_json s =
        JObject [(''id'', JString ''a''),
                 (''type'', JString ''container''),
                 (''content'', JString ''''),
                 (''styles'', JObject []),
                 (''children'', JArray [])]"
      by (cases "sections D") (auto simp: CVData_to_json_def)
    then show False
      by (cases s) (simp add: Styles_to_json_def)
  qed
qed

text \<open>
  C6, amended. For every selected document identifier whose stored value exists and is
  not the empty text: when the stored text is not JSON, the load fails with the
  \<^verbatim>\<open>SyntaxError\<close> of \<^verbatim>\<open>JSON.parse\<close>, an outcome that differs from the one for no record
  (no call of \<^verbatim>\<open>setCVData\<close>); when it is JSON, the load yields the parsed value as it
  is, without checking that it has the shape of a document. The witness loads a text
  that is not JSON, no record, and the text \<^verbatim>\<open>{}\<close>.
\<close>

theorem C6_load_outcomes:
  assumes "selectedCVId st = Some cid" and "cid \<noteq> []"
    and "localStorage st (''cv_'' @ cid) = Some savedCV" and "savedCV \<noteq> []"
  shows "(parse savedCV = None \<longrightarrow> load_effect parse st = SyntaxError) \<and>
         (\<forall>v. parse savedCV = Some v \<longrightarrow> load_effect parse st = SetCVData v) \<and>
         load_effect parse (st\<lparr>localStorage := (localStorage st)(''cv_'' @ cid := None)\<rparr>) = NoCall \<and>
         SyntaxError \<noteq> NoCall"
  using assms by (simp add: load_effect_def)

theorem C6_load_outcomes_witness:
  "selectedCVId \<lparr>localStorage = Map.empty(''cv_a'' \<mapsto> ''{not json''), cvs = [],
                  selectedCVId = Some ''a'', cvData = None\<rparr> = Some ''a'' \<and>
   ''a'' \<noteq> [] \<and>
   localStorage \<lparr>localStorage = Map.empty(''cv_a'' \<mapsto> ''{not json''), cvs = [],
                 selectedCVId = Some ''a'', cvData = None\<rparr> (''cv_'' @ ''a'') = Some ''{not json'' \<and>
   ''{not json'' \<noteq> [] \<and>
   map_of [(''{}'', JObject [])] ''{not json'' = None \<and>
   load_effect (map_of [(''{}'', JObject [])])
     \<lparr>localStorage = Map.empty(''cv_a'' \<mapsto> ''{not json''), cvs = [],
      selectedCVId = Some ''a'', cvData = None\<rparr> = SyntaxError \<and>
   load_effect (map_of [(''{}'', JObject [])])
     \<lparr>localStorage = Map.empty, cvs = [], selectedCVId = Some ''a'', cvData = None\<rparr> = NoCall \<and>
   localStorage \<lparr>localStorage = Map.empty(''cv_a'' \<mapsto> ''{}''), cvs = [],
                 selectedCVId = Some ''a'', cvData = None\<rparr> (''cv_'' @ ''a'') = Some ''{}'' \<and>
   map_of [(''{}'', JObject [])] ''{}'' = Some (JObject []) \<and>
   load_effect (map_of [(''{}'', JObject [])])
     \<lparr>localStorage = Map.empty(''cv_a'' \<mapsto> ''{}''), cvs = [],
      selectedCVId = Some ''a'', cvData = None\<rparr> = SetCVData (JObject [])"
  using C6_load_outcomes [of
      "\<lparr>localStorage = Map.empty(''cv_a'' \<mapsto> ''{not json''), cvs = [],
        selectedCVId = Some ''a'', cvData = None\<rparr>"
      "''a''" "''{not json''" "map_of [(''{}'', JObject [])]"]
    C6_load_outcomes [of
      "\<lparr>localStorage = Map.empty(''cv_a'' \<mapsto> ''{}''), cvs = [],
        selectedCVId = Some ''a'', cvData = None\<rparr>"
      "''a''" "''{}''" "map_of [(''{}'', JObject [])]"]
  by simp

subsection \<open>C7: identifiers under update and insertion\<close>

lemma update_ids_outside:
  "id_upd u = None \<Longrightarrow> ids_outside a (updateSectionRecursive a u T) = ids_outside a T"
  by (induction T rule: ids.induct) (auto simp: spread_def)

lemma update_ids:
  "id_upd u = None \<Longrightarrow> children_upd u = None \<Longrightarrow> ids (updateSectionRecursive a u T) = ids T"
  by (induction T rule: ids.induct) (auto simp: spread_def)

lemma ids_kept_refl: "ids_kept T T"
  by (induction T rule: ids.induct) simp_all

lemma ids_kept_append: "ids_kept T (T @ extra)"
  by (induction T rule: ids.induct) (simp_all add: ids_kept_refl)

lemma add_ids_kept: "ids_kept T (addSectionRecursive p n T)"
  by (induction T rule: ids.induct) (simp_all add: ids_kept_refl ids_kept_append)

lemma update_ids_kept:
  "id_upd u = None \<Longrightarrow> children_upd u = None \<Longrightarrow> ids_kept T (updateSectionRecursive a u T)"
  by (induction T rule: ids.induct) (simp_all add: ids_kept_refl spread_def)

lemma update_sets_id:
  assumes "distinct (ids T)" and "a \<in> set (ids T)" and "id_upd u = Some j"
  shows "one_node_replaced (\<lambda>N N'. section_id N = a \<and> section_id N' = j) T
           (updateSectionRecursive a u T)"
  by (rule one_node_replaced_mono [OF update_replaces_one [OF assms(1,2)]])
    (simp add: spread_def assms(3))

text \<open>
  C7 as the specification words it does not hold: \<^verbatim>\<open>Partial<Section>\<close> admits the keys
  \<^verbatim>\<open>id\<close> and \<^verbatim>\<open>children\<close>, and the spread copies them over the section's own. The
  update of the section \<open>a\<close> with \<^verbatim>\<open>{id: "b"}\<close> returns that section with the identifier
  \<open>b\<close>. The update of the root \<open>r\<close> with \<^verbatim>\<open>children\<close> holding its child \<open>c\<close> under the
  identifier \<open>c2\<close>, all else the same, returns the forest in which that child has the
  identifier \<open>c2\<close>.
\<close>

theorem C7_update_with_id_counterexample:
  "updateSectionRecursive ''a''
     \<lparr>id_upd = Some ''b'', type_upd = None, content_upd = None, styles_upd = None,
      children_upd = None\<rparr>
     [newSection ''a''] = [newSection ''b''] \<and>
   ids [newSection ''a''] = [''a''] \<and> ids [newSection ''b''] = [''b''] \<and>
   updateSectionRecursive ''r''
     \<lparr>id_upd = None, type_upd = None, content_upd = None, styles_upd = None,
      children_upd = Some [Section ''c2'' Text ''hello'' (styles (newSection ''c'')) []]\<rparr>
     [Section ''r'' Container '''' (styles (newSection ''r''))
        [Section ''c'' Text ''hello'' (styles (newSection ''c'')) []]]
   = [Section ''r'' Container '''' (styles (newSection ''r''))
        [Section ''c2'' Text ''hello'' (styles (newSection ''c'')) []]]"
  by (simp add: newSection_def spread_def)

text \<open>
  C7, amended. No insertion changes the identifier of an existing node: every node of
  the input has, at the same place of the result, a node with its identifier. No update
  whose fields include neither \<^verbatim>\<open>id\<close> nor \<^verbatim>\<open>children\<close> changes an identifier: the
  identifiers of the result are those of the input, node for node. An update whose
  fields do not include \<^verbatim>\<open>id\<close> changes no identifier outside the subtree below the
  matched section. In a forest with unique identifiers that contains the section, an
  update whose fields include \<^verbatim>\<open>id\<close> gives the matched section that identifier and
  leaves the rest of the forest as it was.
\<close>

theorem C7_identifiers_kept:
  "ids_kept T (addSectionRecursive parentId n T) \<and>
   (id_upd updates = None \<longrightarrow> children_upd updates = None \<longrightarrow>
      ids (updateSectionRecursive sectionId updates T) = ids T \<and>
      ids_kept T (updateSectionRecursive sectionId updates T)) \<and>
   (id_upd updates = None \<longrightarrow>
      ids_outside sectionId (updateSectionRecursive sectionId updates T) = ids_outside sectionId T) \<and>
   (distinct (ids T) \<longrightarrow> sectionId \<in> set (ids T) \<longrightarrow> id_upd updates = Some j \<longrightarrow>
      one_node_replaced (\<lambda>N N'. section_id N = sectionId \<and> section_id N' = j) T
        (updateSectionRecursive sectionId updates T))"
  by (simp add: add_ids_kept update_ids update_ids_kept update_ids_outside update_sets_id)

theorem C7_identifiers_kept_witness:
  "ids_kept
     [Section ''r'' Container '''' (styles (newSection ''r'')) [newSection ''a'', newSection ''a'']]
     (addSectionRecursive ''a'' (newSection ''r'')
        [Section ''r'' Container '''' (styles (newSection ''r''))
           [newSection ''a'', newSection ''a'']]) \<and>
   id_upd (handleSaveText ''hello'') = None \<and>
   children_upd (handleSaveText ''hello'') = None \<and>
   ids (updateSectionRecursive ''a'' (handleSaveText ''hello'')
     [Section ''r'' Container '''' (styles (newSection ''r'')) [newSection ''a'', newSection ''b'']])
   = [''r'', ''a'', ''b''] \<and>
   ids_kept
     [Section ''r'' Container '''' (styles (newSection ''r'')) [newSection ''a'', newSection ''b'']]
     (updateSectionRecursive ''a'' (handleSaveText ''hello'')
        [Section ''r'' Container '''' (styles (newSection ''r''))
           [newSection ''a'', newSection ''b'']]) \<and>
   ids_outside ''a'' (updateSectionRecursive ''a'' (handleSaveText ''hello'')
     [Section ''r'' Container '''' (styles (newSection ''r'')) [newSection ''a'', newSection ''b'']])
   = [''r'', ''a'', ''b''] \<and>
   distinct (ids [Section ''r'' Container '''' (styles (newSection ''r''))
                    [newSection ''a'', newSection ''b'']]) \<and>
   ''a'' \<in> set (ids [Section ''r'' Container '''' (styles (newSection ''r''))
                          [newSection ''a'', newSection ''b'']]) \<and>
   id_upd \<lparr>id_upd = Some ''z'', type_upd = None, content_upd = None, styles_upd = None,
           children_upd = None\<rparr> = Some ''z'' \<and>
   one_node_replaced (\<lambda>N N'. section_id N = ''a'' \<and> section_id N' = ''z'')
     [Section ''r'' Container '''' (styles (newSection ''r'')) [newSection ''a'', newSection ''b'']]
     [Section ''r'' Container '''' (styles (newSection ''r'')) [newSection ''z'', newSection ''b'']]"
  using C7_identifiers_kept [of
      "[Section ''r'' Container '''' (styles (newSection ''r'')) [newSection ''a'', newSection ''a'']]"
      "''a''" "newSection ''r''" "handleSaveText ''hello''" "''a''" "''q''"]
    C7_identifiers_kept [of
      "[Section ''r'' Container '''' (styles (newSection ''r'')) [newSection ''a'', newSection ''b'']]"
      "''a''" "newSection ''r''" "handleSaveText ''hello''" "''a''" "''q''"]
    C7_identifiers_kept [of
      "[Section ''r'' Container '''' (styles (newSection ''r'')) [newSection ''a'', newSection ''b'']]"
      "''a''" "newSection ''r''"
      "\<lparr>id_upd = Some ''z'', type_upd = None, content_upd = None, styles_upd = None,
        children_upd = None\<rparr>" "''a''" "''z''"]
  by (simp add: handleSaveText_def newSection_def spread_def)

subsection \<open>C8: the document of a new CV\<close>

text \<open>
  C8. When a new CV is registered, the value stored under the key of the new CV is the
  text of a document with exactly one root section; the root has the minted identifier,
  the type container, empty content, the background colour \<open>transparent\<close>, the padding
  \<open>20px\<close>, the margin \<open>0px\<close>, no children and no border field, so that its border is
  drawn as \<open>none\<close>.
\<close>

theorem C8_new_cv_document:
  "localStorage (createNewCV stringify cvUuid sectionUuid now st) (''cv_'' @ cvUuid)
     = Some (stringify (CVData_to_json (initialCVData sectionUuid))) \<and>
   (\<exists>root. sections (initialCVData sectionUuid) = [root] \<and>
      section_id root = sectionUuid \<and> section_type root = Container \<and> content root = [] \<and>
      backgroundColor (styles root) = ''transparent'' \<and>
      padding (styles root) = ''20px'' \<and> padding (styles root) \<noteq> ''0px'' \<and>
      margin (styles root) = ''0px'' \<and>
      borderStyle (styles root) = None \<and> borderWidth (styles root) = None \<and>
      borderColor (styles root) = None \<and> border_css root = ''none'' \<and>
      children root = [])"
  by (simp add: createNewCV_def saveCVs_def initialCVData_def border_css_def or_else_def Let_def)

subsection \<open>C9: the fields of a stored section\<close>


lemma json_get_Section:
  "json_get (Section_to_json s) ''children'' = Some (JArray (map Section_to_json (children s)))"
  "json_get (Section_to_json s) ''styles'' = Some (Styles_to_json (styles s))"
  "json_get (Section_to_json s) ''id'' = Some (JString (section_id s))"
  by (cases s; simp)+






















subsection \<open>C10: an update may carry children\<close>




end
